theory Spec2Isabelle
  imports Complex_Main
begin

section \<open>Python values of \<^verbatim>\<open>tools/classify_oidv2.py\<close>\<close>

text \<open>
  The script is one Python file. Its own logic is \<^verbatim>\<open>LoadLabelMap\<close> and the body of
  \<^verbatim>\<open>main\<close>; file access, graph restoration, inference and \<^verbatim>\<open>argsort\<close> belong to
  TensorFlow and numpy and enter the model as parameters, as does the interpreter's
  notion of whitespace.

  Exceptions are values: a function that can raise returns \<open>error + 'a\<close>.
\<close>

datatype error = IndexError | KeyError | NotFoundError | FrameworkError

text \<open>
  A score is the value of a finite float, as a rational number. NaN, the infinities and
  the negative zero, which has the value of zero and another sign, are outside the model.
\<close>

type_synonym score = rat

text \<open>\<^verbatim>\<open>xs[i]\<close> on a list or array, for an index that is not negative.\<close>

definition py_index :: "'a list \<Rightarrow> nat \<Rightarrow> error + 'a" where
  "py_index xs i = (if i < length xs then Inr (xs ! i) else Inl IndexError)"

text \<open>\<^verbatim>\<open>d[k]\<close> on a dict.\<close>

definition py_getitem :: "('k \<rightharpoonup> 'v) \<Rightarrow> 'k \<Rightarrow> error + 'v" where
  "py_getitem d k = (case d k of None \<Rightarrow> Inl KeyError | Some v \<Rightarrow> Inr v)"

subsection \<open>String methods\<close>

text \<open>
  A character of the model is one of the 256 values of \<^typ>\<open>char\<close>: a byte of a Python 2
  string, or a code point below 256 of a Python 3 string. Text with higher code points is
  outside the model.

  Which characters are whitespace depends on the interpreter, so the whitespace test
  \<^verbatim>\<open>isspace\<close> is a parameter of the model. On a Python 2 byte string the whitespace is
  space, tab, line feed, carriage return, vertical tab and form feed; on a Python 3
  string, among the code points below 256, also the separators 0x1C to 0x1F, the next
  line control 0x85 and the no-break space 0xA0.
\<close>

definition py_whitespace :: "char list" where
  "py_whitespace = [CHR 0x20, CHR 0x09, CHR 0x0A, CHR 0x0D, CHR 0x0B, CHR 0x0C]"

definition py3_whitespace :: "char list" where
  "py3_whitespace =
     py_whitespace @ [CHR 0x1C, CHR 0x1D, CHR 0x1E, CHR 0x1F, CHR 0x85, CHR 0xA0]"

definition py2_isspace :: "char \<Rightarrow> bool" where
  "py2_isspace c \<longleftrightarrow> c \<in> set py_whitespace"

definition py3_isspace :: "char \<Rightarrow> bool" where
  "py3_isspace c \<longleftrightarrow> c \<in> set py3_whitespace"

definition lstrip_chars :: "char list \<Rightarrow> string \<Rightarrow> string" where
  "lstrip_chars cs s = dropWhile (\<lambda>c. c \<in> set cs) s"

definition rstrip_chars :: "char list \<Rightarrow> string \<Rightarrow> string" where
  "rstrip_chars cs s = rev (dropWhile (\<lambda>c. c \<in> set cs) (rev s))"

text \<open>\<^verbatim>\<open>s.strip(cs)\<close>.\<close>

definition strip_chars :: "char list \<Rightarrow> string \<Rightarrow> string" where
  "strip_chars cs s = rstrip_chars cs (lstrip_chars cs s)"

text \<open>\<^verbatim>\<open>s.rstrip()\<close>: the trailing whitespace of the interpreter is removed.\<close>

definition rstrip :: "(char \<Rightarrow> bool) \<Rightarrow> string \<Rightarrow> string" where
  "rstrip isspace s = rev (dropWhile isspace (rev s))"

text \<open>\<^verbatim>\<open>s.split(sep, 1)\<close>: at most one split, at the first separator.\<close>

definition split1 :: "char \<Rightarrow> string \<Rightarrow> string list" where
  "split1 sep s =
     (case dropWhile (\<lambda>c. c \<noteq> sep) s of
        [] \<Rightarrow> [s]
      | _ # rest \<Rightarrow> [takeWhile (\<lambda>c. c \<noteq> sep) s, rest])"

text \<open>\<^verbatim>\<open>s.split(sep)\<close>: a split at every separator; the result is never empty.\<close>

fun split_sep :: "char \<Rightarrow> string \<Rightarrow> string list" where
  "split_sep sep [] = [[]]"
| "split_sep sep (c # cs) =
     (if c = sep then [] # split_sep sep cs
      else (let r = split_sep sep cs in (c # hd r) # tl r))"

section \<open>\<^verbatim>\<open>LoadLabelMap\<close>\<close>

text \<open>
  \<^verbatim>\<open>tf.gfile.GFile(path)\<close>, iterated: the lines of the file, each with its line feed,
  or an exception when the file cannot be opened. TensorFlow's line reader drops every
  carriage return of the file, so a line it yields holds none.
\<close>

type_synonym gfile = "string \<Rightarrow> error + string list"

text \<open>\<^verbatim>\<open>[word.strip(' "\n') for word in line.split(',', 1)]\<close>\<close>

definition dict_words :: "string \<Rightarrow> string list" where
  \<open>dict_words line = map (strip_chars '' "\<newline>'') (split1 (CHR '','') line)\<close>

text \<open>
  The loop over the lines of the dictionary file. The right-hand side \<^verbatim>\<open>words[1]\<close> of
  the assignment is evaluated before the key \<^verbatim>\<open>words[0]\<close>.
\<close>

fun load_dict :: "string list \<Rightarrow> (string \<rightharpoonup> string) \<Rightarrow> error + (string \<rightharpoonup> string)" where
  "load_dict [] label_dict = Inr label_dict"
| "load_dict (line # rest) label_dict =
     (let words = dict_words line in
      case py_index words 1 of
        Inl e \<Rightarrow> Inl e
      | Inr v \<Rightarrow>
          (case py_index words 0 of
             Inl e \<Rightarrow> Inl e
           | Inr k \<Rightarrow> load_dict rest (label_dict(k \<mapsto> v))))"

definition LoadLabelMap ::
  "(char \<Rightarrow> bool) \<Rightarrow> gfile \<Rightarrow> string \<Rightarrow> string \<Rightarrow>
   error + (string list \<times> (string \<rightharpoonup> string))" where
  "LoadLabelMap isspace gfile labelmap_path dict_path =
     (case gfile labelmap_path of
        Inl e \<Rightarrow> Inl e
      | Inr labelmap_lines \<Rightarrow>
          (let labelmap = map (rstrip isspace) labelmap_lines in
           case gfile dict_path of
             Inl e \<Rightarrow> Inl e
           | Inr dict_lines \<Rightarrow>
               (case load_dict dict_lines Map.empty of
                  Inl e \<Rightarrow> Inl e
                | Inr label_dict \<Rightarrow> Inr (labelmap, label_dict))))"

section \<open>Ranking and printing in \<^verbatim>\<open>main\<close>\<close>

text \<open>
  \<^verbatim>\<open>predictions_eval.argsort()\<close> is numpy's: a permutation of the indices of the array
  that puts the scores in ascending order. How it orders equal scores is not fixed by its
  default sorting method, so the model takes its result as a parameter \<open>order\<close> and the
  theorems constrain it by this contract only.
\<close>

definition argsort_ok :: "score list \<Rightarrow> nat list \<Rightarrow> bool" where
  "argsort_ok predictions_eval order \<longleftrightarrow>
     length order = length predictions_eval \<and> distinct order \<and>
     list_all (\<lambda>i. i < length predictions_eval) order \<and>
     sorted (map (\<lambda>i. predictions_eval ! i) order)"

text \<open>\<^verbatim>\<open>[i for i in top_k if predictions_eval[i] >= FLAGS.score_threshold]\<close>\<close>

fun filter_scores :: "score list \<Rightarrow> score \<Rightarrow> nat list \<Rightarrow> error + nat list" where
  "filter_scores predictions_eval t [] = Inr []"
| "filter_scores predictions_eval t (i # rest) =
     (case py_index predictions_eval i of
        Inl e \<Rightarrow> Inl e
      | Inr s \<Rightarrow>
          (case filter_scores predictions_eval t rest of
             Inl e \<Rightarrow> Inl e
           | Inr kept \<Rightarrow> Inr (if s \<ge> t then i # kept else kept)))"

text \<open>Lines 165 to 170: reverse, truncate when \<^verbatim>\<open>FLAGS.top_k > 0\<close>, then filter.\<close>

definition top_k_indices :: "nat list \<Rightarrow> score list \<Rightarrow> int \<Rightarrow> score option \<Rightarrow> error + nat list" where
  "top_k_indices order predictions_eval flag_top_k flag_score_threshold =
     (let top_k = rev order;
          top_k = (if flag_top_k > 0 then take (nat flag_top_k) top_k else top_k)
      in case flag_score_threshold of
           None \<Rightarrow> Inr top_k
         | Some t \<Rightarrow> filter_scores predictions_eval t top_k)"

subsection \<open>Formatting\<close>

definition digit_char :: "nat \<Rightarrow> char" where
  "digit_char d = ''0123456789'' ! d"

fun decimal :: "nat \<Rightarrow> string" where
  "decimal n = (if n < 10 then [digit_char n] else decimal (n div 10) @ [digit_char (n mod 10)])"

declare decimal.simps [simp del]

text \<open>\<^verbatim>\<open>'{:04d}'\<close> on an index that is not negative: zeros on the left up to width 4.\<close>

definition format_04d :: "nat \<Rightarrow> string" where
  "format_04d n = replicate (4 - length (decimal n)) (CHR ''0'') @ decimal n"

definition round_half_even :: "rat \<Rightarrow> int" where
  "round_half_even q =
     (let f = \<lfloor>q\<rfloor>; d = q - of_int f
      in if d < 1 / 2 then f else if d > 1 / 2 then f + 1 else if even f then f else f + 1)"

text \<open>
  \<^verbatim>\<open>'{:.2f}'\<close>: the exact value of the float rounded to two decimals, ties to even, with a
  minus sign for a negative value. The zero of the model is the positive zero, written
  \<^verbatim>\<open>0.00\<close>; the negative zero, which Python writes \<^verbatim>\<open>-0.00\<close>, is not a score of the
  model, and the properties of the printed lines are stated for scores other than zero.
\<close>

definition format_2f :: "score \<Rightarrow> string" where
  "format_2f x =
     (let n = nat (round_half_even (\<bar>x\<bar> * 100))
      in (if x < 0 then ''-'' else '''') @ decimal (n div 100) @ ''.'' @
         [digit_char (n mod 100 div 10), digit_char (n mod 10)])"

text \<open>\<^verbatim>\<open>'{:04d}: {} - {} (score = {:.2f})'.format(idx, mid, display_name, score)\<close>\<close>

definition format_result :: "nat \<Rightarrow> string \<Rightarrow> string \<Rightarrow> score \<Rightarrow> string" where
  "format_result idx mid display_name score =
     format_04d idx @ '': '' @ mid @ '' - '' @ display_name @
     '' (score = '' @ format_2f score @ '')''"

text \<open>Standard output is a string; \<^verbatim>\<open>print(s)\<close> appends \<open>s\<close> and a line feed.\<close>

definition print :: "string \<Rightarrow> string \<Rightarrow> string" where
  "print out s = out @ s @ ''\<newline>''"

text \<open>
  The loop of lines 172 to 177. An exception leaves what was printed before it on
  standard output.
\<close>

fun print_results ::
  "string list \<Rightarrow> (string \<rightharpoonup> string) \<Rightarrow> score list \<Rightarrow> nat list \<Rightarrow> string \<Rightarrow> string \<times> error option" where
  "print_results labelmap label_dict predictions_eval [] out = (out, None)"
| "print_results labelmap label_dict predictions_eval (idx # rest) out =
     (case py_index labelmap idx of
        Inl e \<Rightarrow> (out, Some e)
      | Inr mid \<Rightarrow>
          (case py_getitem label_dict mid of
             Inl e \<Rightarrow> (out, Some e)
           | Inr display_name \<Rightarrow>
               (case py_index predictions_eval idx of
                  Inl e \<Rightarrow> (out, Some e)
                | Inr score \<Rightarrow>
                    print_results labelmap label_dict predictions_eval rest
                      (print out (format_result idx mid display_name score)))))"

text \<open>Lines 165 to 177, for one image: rank, print the header, print the results.\<close>

definition show_predictions ::
  "string list \<Rightarrow> (string \<rightharpoonup> string) \<Rightarrow> string \<Rightarrow> score list \<Rightarrow> nat list \<Rightarrow> int \<Rightarrow>
   score option \<Rightarrow> string \<Rightarrow> string \<times> error option" where
  \<open>show_predictions labelmap label_dict image_filename predictions_eval order flag_top_k
     flag_score_threshold out =
     (case top_k_indices order predictions_eval flag_top_k flag_score_threshold of
        Inl e \<Rightarrow> (out, Some e)
      | Inr top_k \<Rightarrow>
          print_results labelmap label_dict predictions_eval top_k
            (print out (''Image: "'' @ image_filename @ ''"\<newline>'')))\<close>

subsection \<open>The whole run\<close>

record flags =
  flag_labelmap :: string
  flag_dict :: string
  flag_checkpoint_path :: string
  flag_image :: string
  flag_top_k :: int
  flag_score_threshold :: "score option"

text \<open>
  What the script takes from its interpreter and its libraries: the whitespace test, the
  files, the restoration of the graph from the checkpoint, reading an image and running
  the graph on it, and \<^verbatim>\<open>argsort\<close>.
\<close>

record env =
  str_isspace :: "char \<Rightarrow> bool"
  gfile_of :: gfile
  restore :: "string \<Rightarrow> error option"
  sess_run :: "string \<Rightarrow> error + score list"
  argsort :: "score list \<Rightarrow> nat list"

fun image_loop ::
  "env \<Rightarrow> flags \<Rightarrow> string list \<Rightarrow> (string \<rightharpoonup> string) \<Rightarrow> string list \<Rightarrow> string \<Rightarrow>
   string \<times> error option" where
  "image_loop E F labelmap label_dict [] out = (out, None)"
| "image_loop E F labelmap label_dict (image_filename # rest) out =
     (case sess_run E image_filename of
        Inl e \<Rightarrow> (out, Some e)
      | Inr predictions_eval \<Rightarrow>
          (case show_predictions labelmap label_dict image_filename predictions_eval
                  (argsort E predictions_eval) (flag_top_k F) (flag_score_threshold F) out of
             (out', Some e) \<Rightarrow> (out', Some e)
           | (out', None) \<Rightarrow> image_loop E F labelmap label_dict rest out'))"

definition main :: "env \<Rightarrow> flags \<Rightarrow> string \<times> error option" where
  "main E F =
     (case LoadLabelMap (str_isspace E) (gfile_of E) (flag_labelmap F) (flag_dict F) of
        Inl e \<Rightarrow> ('''', Some e)
      | Inr (labelmap, label_dict) \<Rightarrow>
          (case restore E (flag_checkpoint_path F) of
             Some e \<Rightarrow> ('''', Some e)
           | None \<Rightarrow>
               image_loop E F labelmap label_dict (split_sep (CHR '' '') (flag_image F)) ''''))"

section \<open>Notions for stating the properties\<close>

text \<open>
  The spec's words for the dictionary fields, "surrounding whitespace and double-quote
  characters stripped": a strip of the double quote and of every whitespace character.
\<close>

definition strip_whitespace_quotes :: "string \<Rightarrow> string" where
  "strip_whitespace_quotes s = strip_chars (CHR 0x22 # py_whitespace) s"

text \<open>A string that \<^verbatim>\<open>strip(cs)\<close> leaves as it is: empty, or with both ends outside \<open>cs\<close>.\<close>

definition unstripped :: "char list \<Rightarrow> string \<Rightarrow> bool" where
  "unstripped cs s \<longleftrightarrow> s = [] \<or> (hd s \<notin> set cs \<and> last s \<notin> set cs)"

text \<open>The number that a string of decimal digits writes.\<close>

definition digits_value :: "string \<Rightarrow> nat" where
  "digits_value s = foldl (\<lambda>a c. 10 * a + (of_char c - 48)) 0 s"

text \<open>
  The three reads of the printing loop succeed for a ranked index: it is inside the label
  map, its mid is a key of the dictionary, and it is inside the score vector.
\<close>

definition lookups_ok :: "string list \<Rightarrow> (string \<rightharpoonup> string) \<Rightarrow> score list \<Rightarrow> nat \<Rightarrow> bool" where
  "lookups_ok labelmap label_dict predictions_eval idx \<longleftrightarrow>
     idx < length labelmap \<and> label_dict (labelmap ! idx) \<noteq> None \<and>
     idx < length predictions_eval"

text \<open>The line printed for a ranked index whose reads succeed.\<close>

definition result_line :: "string list \<Rightarrow> (string \<rightharpoonup> string) \<Rightarrow> score list \<Rightarrow> nat \<Rightarrow> string" where
  "result_line labelmap label_dict predictions_eval idx =
     format_result idx (labelmap ! idx) (the (label_dict (labelmap ! idx)))
       (predictions_eval ! idx)"

section \<open>Sample inputs\<close>

text \<open>
  A file system that holds the two label files of the example command in the script's
  docstring and nothing else.
\<close>

definition two_files :: "string list \<Rightarrow> string list \<Rightarrow> gfile" where
  "two_files labelmap_lines dict_lines path =
     (if path = ''classes-trainable.txt'' then Inr labelmap_lines
      else if path = ''class-descriptions.csv'' then Inr dict_lines
      else Inl NotFoundError)"

text \<open>
  One \<^verbatim>\<open>argsort\<close> that meets the contract, for the sample runs: a stable sort of the
  indices by score.
\<close>

definition stable_argsort :: "score list \<Rightarrow> nat list" where
  "stable_argsort predictions_eval =
     sort_key (\<lambda>i. predictions_eval ! i) [0..<length predictions_eval]"

text \<open>
  The sample run: two classes, one image \<^verbatim>\<open>cat.jpg\<close> with the scores 0.96 and 0.95, and
  the flags of the example command.
\<close>

definition sample_label_dict :: "string \<rightharpoonup> string" where
  "sample_label_dict = [''/m/068hy'' \<mapsto> ''Pet'', ''/m/01yrx'' \<mapsto> ''Cat'']"

definition sample_env :: env where
  \<open>sample_env =
     \<lparr>str_isspace = py3_isspace,
      gfile_of = two_files [''/m/068hy\<newline>'', ''/m/01yrx\<newline>'']
                  [''/m/068hy,"Pet"\<newline>'', ''/m/01yrx,"Cat"\<newline>''],
      restore = (\<lambda>checkpoint_path. None),
      sess_run = (\<lambda>image_filename.
                    if image_filename = ''cat.jpg'' then Inr [24/25, 19/20]
                    else Inl NotFoundError),
      argsort = stable_argsort\<rparr>\<close>

definition sample_flags :: flags where
  "sample_flags =
     \<lparr>flag_labelmap = ''classes-trainable.txt'', flag_dict = ''class-descriptions.csv'',
      flag_checkpoint_path = ''oidv2-resnet_v1_101.ckpt'', flag_image = ''cat.jpg'',
      flag_top_k = 10, flag_score_threshold = Some (3/10)\<rparr>"

section \<open>Properties of \<^verbatim>\<open>LoadLabelMap\<close>\<close>

subsection \<open>Splitting and stripping\<close>

lemma dropWhile_sep_Nil: "dropWhile (\<lambda>c. c \<noteq> sep) s = [] \<longleftrightarrow> sep \<notin> set s"
  by (induction s) auto

lemma dropWhile_sep_append:
  "sep \<notin> set a \<Longrightarrow> dropWhile (\<lambda>c. c \<noteq> sep) (a @ sep # b) = sep # b"
  by (induction a) auto

lemma takeWhile_sep_append:
  "sep \<notin> set a \<Longrightarrow> takeWhile (\<lambda>c. c \<noteq> sep) (a @ sep # b) = a"
  by (induction a) auto

lemma length_split1: "length (split1 sep s) = (if sep \<in> set s then 2 else 1)"
proof (cases "dropWhile (\<lambda>c. c \<noteq> sep) s")
  case Nil
  have "sep \<notin> set s" using Nil dropWhile_sep_Nil[of sep s] by blast
  then show ?thesis unfolding split1_def Nil by simp
next
  case (Cons c rest)
  have "sep \<in> set s" using Cons dropWhile_sep_Nil[of sep s] by auto
  then show ?thesis unfolding split1_def Cons by simp
qed

lemma split1_append: "sep \<notin> set a \<Longrightarrow> split1 sep (a @ sep # b) = [a, b]"
  by (simp add: split1_def dropWhile_sep_append takeWhile_sep_append)

lemma rstrip_decomp: "\<exists>ws. s = rstrip isspace s @ ws \<and> list_all isspace ws"
proof -
  have "s = rstrip isspace s @ rev (takeWhile isspace (rev s))"
    unfolding rstrip_def
    by (metis rev_append rev_rev_ident takeWhile_dropWhile_id)
  moreover have "list_all isspace (rev (takeWhile isspace (rev s)))"
    by (auto simp: list_all_iff dest: set_takeWhileD)
  ultimately show ?thesis by blast
qed

lemma rstrip_last: "rstrip isspace s \<noteq> [] \<Longrightarrow> \<not> isspace (last (rstrip isspace s))"
  using hd_dropWhile[of isspace "rev s"]
  by (simp add: rstrip_def last_rev)

lemma dropWhile_all: "set xs \<subseteq> {x. P x} \<Longrightarrow> dropWhile P xs = []"
  by (induction xs) auto

lemma dropWhile_prefix:
  "set pre \<subseteq> {x. P x} \<Longrightarrow> ys \<noteq> [] \<Longrightarrow> \<not> P (hd ys) \<Longrightarrow> dropWhile P (pre @ ys) = ys"
  by (induction pre) (auto simp: neq_Nil_conv)

lemma strip_chars_surrounded:
  assumes "set pre \<subseteq> set cs" and "set post \<subseteq> set cs" and "unstripped cs x"
  shows "strip_chars cs (pre @ x @ post) = x"
proof (cases "x = []")
  case True
  from assms(1,2) have "set (pre @ post) \<subseteq> {c. c \<in> set cs}" by auto
  then have "dropWhile (\<lambda>c. c \<in> set cs) (pre @ post) = []" by (rule dropWhile_all)
  then have "lstrip_chars cs (pre @ x @ post) = []"
    unfolding True lstrip_chars_def by (simp only: append_Nil)
  then show ?thesis
    unfolding strip_chars_def by (simp add: rstrip_chars_def True)
next
  case False
  with assms(3) have h: "hd x \<notin> set cs" and l: "last x \<notin> set cs"
    by (simp_all add: unstripped_def)
  from False h have "hd (x @ post) \<notin> set cs" by simp
  with assms(1) False have 1: "dropWhile (\<lambda>c. c \<in> set cs) (pre @ x @ post) = x @ post"
    by (intro dropWhile_prefix) auto
  from False l have "hd (rev x) \<notin> set cs" by (simp add: hd_rev)
  with assms(2) False have "dropWhile (\<lambda>c. c \<in> set cs) (rev post @ rev x) = rev x"
    by (intro dropWhile_prefix) auto
  with 1 show ?thesis
    by (simp add: strip_chars_def lstrip_chars_def rstrip_chars_def)
qed

subsection \<open>The dictionary loop\<close>

lemma length_dict_words:
  "length (dict_words line) = (if CHR '','' \<in> set line then 2 else 1)"
  by (simp add: dict_words_def length_split1)

lemma load_dict_no_comma:
  "\<not> list_all (\<lambda>line. CHR '','' \<in> set line) dict_lines \<Longrightarrow>
   load_dict dict_lines label_dict = Inl IndexError"
  by (induction dict_lines arbitrary: label_dict)
     (auto simp: py_index_def length_dict_words Let_def)

lemma load_dict_commas:
  "list_all (\<lambda>line. CHR '','' \<in> set line) dict_lines \<Longrightarrow>
   \<exists>d. load_dict dict_lines label_dict = Inr d"
  by (induction dict_lines arbitrary: label_dict)
     (auto simp: py_index_def length_dict_words Let_def)

lemma load_dict_other_keys:
  "load_dict dict_lines label_dict = Inr d \<Longrightarrow>
   list_all (\<lambda>line. dict_words line ! 0 \<noteq> k) dict_lines \<Longrightarrow> d k = label_dict k"
  by (induction dict_lines arbitrary: label_dict)
     (auto simp: py_index_def Let_def split: if_splits)

lemma load_dict_last:
  "load_dict dict_lines label_dict = Inr d \<Longrightarrow> i < length dict_lines \<Longrightarrow>
   list_all (\<lambda>line. dict_words line ! 0 \<noteq> dict_words (dict_lines ! i) ! 0)
     (drop (Suc i) dict_lines) \<Longrightarrow>
   d (dict_words (dict_lines ! i) ! 0) = Some (dict_words (dict_lines ! i) ! 1)"
proof (induction dict_lines arbitrary: label_dict i)
  case Nil
  then show ?case by simp
next
  case (Cons line rest)
  from Cons.prems(1) obtain
    step: "load_dict rest (label_dict(dict_words line ! 0 \<mapsto> dict_words line ! 1)) = Inr d"
    by (auto simp: py_index_def Let_def split: if_splits)
  show ?case
  proof (cases i)
    case 0
    with Cons.prems(3) load_dict_other_keys[OF step] show ?thesis by simp
  next
    case (Suc j)
    with Cons.prems Cons.IH[OF step, of j] show ?thesis by simp
  qed
qed

lemma dict_words_append:
  \<open>CHR '','' \<notin> set a \<Longrightarrow>
   dict_words (a @ CHR '','' # b) = [strip_chars '' "\<newline>'' a, strip_chars '' "\<newline>'' b]\<close>
  by (simp add: dict_words_def split1_append)

lemma LoadLabelMap_eq:
  assumes "gfile labelmap_path = Inr labelmap_lines"
    and "gfile dict_path = Inr dict_lines"
  shows "LoadLabelMap isspace gfile labelmap_path dict_path =
         (case load_dict dict_lines Map.empty of
            Inl e \<Rightarrow> Inl e
          | Inr label_dict \<Rightarrow> Inr (map (rstrip isspace) labelmap_lines, label_dict))"
  by (simp add: LoadLabelMap_def assms)

subsection \<open>The label map\<close>

text \<open>
  C3. When both files can be read and every dictionary line has a comma,
  \<^verbatim>\<open>LoadLabelMap\<close> returns, and its label map has one entry for each line of the
  label-map file, in the order of the lines: entry \<open>i\<close> is line \<open>i\<close> without its
  trailing whitespace, whatever the whitespace of the interpreter is (what was cut is
  whitespace only, and what is left does not end in whitespace). The class index of a
  mid is therefore its line position.
\<close>

theorem LoadLabelMap_labelmap_order:
  assumes "gfile labelmap_path = Inr labelmap_lines"
    and "gfile dict_path = Inr dict_lines"
    and "list_all (\<lambda>line. CHR '','' \<in> set line) dict_lines"
  shows "\<exists>labelmap label_dict.
           LoadLabelMap isspace gfile labelmap_path dict_path = Inr (labelmap, label_dict) \<and>
           length labelmap = length labelmap_lines \<and>
           (\<forall>i < length labelmap_lines.
              labelmap ! i = rstrip isspace (labelmap_lines ! i) \<and>
              (\<exists>ws. labelmap_lines ! i = labelmap ! i @ ws \<and> list_all isspace ws) \<and>
              (labelmap ! i = [] \<or> \<not> isspace (last (labelmap ! i))))"
proof -
  from load_dict_commas[OF assms(3)] obtain d where d: "load_dict dict_lines Map.empty = Inr d"
    by blast
  have "LoadLabelMap isspace gfile labelmap_path dict_path =
        Inr (map (rstrip isspace) labelmap_lines, d)"
    by (simp add: LoadLabelMap_def assms(1,2) d)
  moreover have "\<exists>ws. l = rstrip isspace l @ ws \<and> list_all isspace ws" for l
    by (rule rstrip_decomp)
  moreover have "rstrip isspace l = [] \<or> \<not> isspace (last (rstrip isspace l))" for l
    using rstrip_last by blast
  ultimately show ?thesis by simp
qed

text \<open>
  The witness runs the same files under both interpreters. The first line ends in the
  unit separator 0x1F and a line feed: as Python 3 text both are cut, as a Python 2 byte
  string only the line feed is.
\<close>

theorem LoadLabelMap_labelmap_order_witness:
  \<open>(\<exists>label_dict.
      LoadLabelMap py3_isspace
        (two_files [''/m/068hy'' @ [CHR 0x1F, CHR 0x0A], ''/m/01yrx  \<newline>'']
           [''/m/068hy,"Pet"\<newline>'', ''/m/01yrx,"Cat"\<newline>''])
        ''classes-trainable.txt'' ''class-descriptions.csv'' =
      Inr ([''/m/068hy'', ''/m/01yrx''], label_dict)) \<and>
   (\<exists>label_dict.
      LoadLabelMap py2_isspace
        (two_files [''/m/068hy'' @ [CHR 0x1F, CHR 0x0A], ''/m/01yrx  \<newline>'']
           [''/m/068hy,"Pet"\<newline>'', ''/m/01yrx,"Cat"\<newline>''])
        ''classes-trainable.txt'' ''class-descriptions.csv'' =
      Inr ([''/m/068hy'' @ [CHR 0x1F], ''/m/01yrx''], label_dict))\<close>
proof -
  let ?ls = \<open>[''/m/068hy'' @ [CHR 0x1F, CHR 0x0A], ''/m/01yrx  \<newline>'']\<close>
  let ?ds = \<open>[''/m/068hy,"Pet"\<newline>'', ''/m/01yrx,"Cat"\<newline>'']\<close>
  have h1: "two_files ?ls ?ds ''classes-trainable.txt'' = Inr ?ls"
    by (simp add: two_files_def)
  have h2: "two_files ?ls ?ds ''class-descriptions.csv'' = Inr ?ds"
    by (simp add: two_files_def)
  have h3: "list_all (\<lambda>line. CHR '','' \<in> set line) ?ds" by simp
  have e: "\<exists>label_dict.
             LoadLabelMap isspace (two_files ?ls ?ds) ''classes-trainable.txt''
               ''class-descriptions.csv'' =
             Inr ([rstrip isspace (?ls ! 0), rstrip isspace (?ls ! 1)], label_dict)" for isspace
  proof -
    from LoadLabelMap_labelmap_order[where isspace = isspace and gfile = "two_files ?ls ?ds"
        and labelmap_lines = ?ls and dict_lines = ?ds, OF h1 h2 h3]
    obtain labelmap label_dict where
      r: "LoadLabelMap isspace (two_files ?ls ?ds) ''classes-trainable.txt''
            ''class-descriptions.csv'' = Inr (labelmap, label_dict)"
      and l: "length labelmap = length ?ls"
      and n: "\<forall>i < length ?ls. labelmap ! i = rstrip isspace (?ls ! i)"
      by blast
    from n have "labelmap ! 0 = rstrip isspace (?ls ! 0)"
      "labelmap ! 1 = rstrip isspace (?ls ! 1)" by simp_all
    with l have "labelmap = [rstrip isspace (?ls ! 0), rstrip isspace (?ls ! 1)]"
      by (simp add: list_eq_iff_nth_eq less_Suc_eq)
    with r show ?thesis by blast
  qed
  have 3: "rstrip py3_isspace (?ls ! 0) = ''/m/068hy''" "rstrip py3_isspace (?ls ! 1) = ''/m/01yrx''"
    by (simp_all add: rstrip_def py3_isspace_def py3_whitespace_def py_whitespace_def)
  have 2: "rstrip py2_isspace (?ls ! 0) = ''/m/068hy'' @ [CHR 0x1F]"
    "rstrip py2_isspace (?ls ! 1) = ''/m/01yrx''"
    by (simp_all add: rstrip_def py2_isspace_def py_whitespace_def)
  from e[of py3_isspace] e[of py2_isspace] show ?thesis unfolding 3 2 by blast
qed

subsection \<open>The dictionary\<close>

text \<open>
  C4, as the code has it. A dictionary line is split at its first comma only. From each
  of the two fields \<^verbatim>\<open>strip(' "\n')\<close> removes the surrounding spaces, double quotes and
  line feeds, and no other character: for a line whose first field is \<open>mid\<close> and whose
  second field is \<open>name\<close>, each surrounded by such characters only (\<open>mid,"name"\<close> is
  the usual case, and \<open>name\<close> may hold commas), the two words are \<open>mid\<close> and \<open>name\<close>.
  When both files can be read, every dictionary line has a comma and no later line has
  the key \<open>mid\<close>, \<^verbatim>\<open>LoadLabelMap\<close> returns a dictionary with \<open>dict[mid] == name\<close>.
\<close>

theorem LoadLabelMap_dict_entry:
  assumes "gfile labelmap_path = Inr labelmap_lines"
    and "gfile dict_path = Inr dict_lines"
    and "list_all (\<lambda>line. CHR '','' \<in> set line) dict_lines"
    and "i < length dict_lines"
    and "dict_lines ! i = (pa @ mid @ qa) @ CHR '','' # (pb @ name @ qb)"
    and \<open>set (pa @ qa @ pb @ qb) \<subseteq> set '' "\<newline>''\<close>
    and "CHR '','' \<notin> set (pa @ mid @ qa)"
    and \<open>unstripped '' "\<newline>'' mid\<close> and \<open>unstripped '' "\<newline>'' name\<close>
    and "list_all (\<lambda>line. dict_words line ! 0 \<noteq> mid) (drop (Suc i) dict_lines)"
  shows "dict_words (dict_lines ! i) = [mid, name] \<and>
         (\<exists>labelmap label_dict.
            LoadLabelMap isspace gfile labelmap_path dict_path = Inr (labelmap, label_dict) \<and>
            label_dict mid = Some name)"
proof -
  from assms(6) have \<open>set pa \<subseteq> set '' "\<newline>''\<close> \<open>set qa \<subseteq> set '' "\<newline>''\<close>
    \<open>set pb \<subseteq> set '' "\<newline>''\<close> \<open>set qb \<subseteq> set '' "\<newline>''\<close>
    by simp_all
  then have \<open>strip_chars '' "\<newline>'' (pa @ mid @ qa) = mid\<close>
    and \<open>strip_chars '' "\<newline>'' (pb @ name @ qb) = name\<close>
    using assms(8,9) by (simp_all only: strip_chars_surrounded)
  then have w: "dict_words (dict_lines ! i) = [mid, name]"
    unfolding assms(5) using dict_words_append[OF assms(7)] by simp
  from load_dict_commas[OF assms(3)] obtain d where d: "load_dict dict_lines Map.empty = Inr d"
    by blast
  from load_dict_last[OF d assms(4)] assms(10) w have "d mid = Some name" by simp
  with w show ?thesis by (simp add: LoadLabelMap_eq[OF assms(1,2)] d)
qed

theorem LoadLabelMap_dict_entry_witness:
  \<open>dict_words ''/m/07k6w8, "Small to medium-sized cats, wild"\<newline>'' =
     [''/m/07k6w8'', ''Small to medium-sized cats, wild''] \<and>
   (\<exists>labelmap label_dict.
     LoadLabelMap py3_isspace
       (two_files [''/m/07k6w8\<newline>'']
          [''/m/07k6w8, "Small to medium-sized cats, wild"\<newline>'', ''/m/01yrx,"Cat"\<newline>''])
       ''classes-trainable.txt'' ''class-descriptions.csv'' = Inr (labelmap, label_dict) \<and>
     label_dict ''/m/07k6w8'' = Some ''Small to medium-sized cats, wild'')\<close>
proof -
  let ?ls = \<open>[''/m/07k6w8\<newline>'']\<close>
  let ?ds = \<open>[''/m/07k6w8, "Small to medium-sized cats, wild"\<newline>'', ''/m/01yrx,"Cat"\<newline>'']\<close>
  have h1: "two_files ?ls ?ds ''classes-trainable.txt'' = Inr ?ls"
    by (simp add: two_files_def)
  have h2: "two_files ?ls ?ds ''class-descriptions.csv'' = Inr ?ds"
    by (simp add: two_files_def)
  have h3: "list_all (\<lambda>line. CHR '','' \<in> set line) ?ds" by simp
  have h4: "0 < length ?ds" by simp
  have h5: \<open>?ds ! 0 = ('''' @ ''/m/07k6w8'' @ '''') @ CHR '','' #
               ('' "'' @ ''Small to medium-sized cats, wild'' @ ''"\<newline>'')\<close>
    by simp
  have h6: \<open>set ('''' @ '''' @ '' "'' @ ''"\<newline>'') \<subseteq> set '' "\<newline>''\<close> by simp
  have h7: "CHR '','' \<notin> set ('''' @ ''/m/07k6w8'' @ '''')" by simp
  have h8: \<open>unstripped '' "\<newline>'' ''/m/07k6w8''\<close>
    and h9: \<open>unstripped '' "\<newline>'' ''Small to medium-sized cats, wild''\<close>
    by (simp_all add: unstripped_def)
  have h10: "list_all (\<lambda>line. dict_words line ! 0 \<noteq> ''/m/07k6w8'') (drop (Suc 0) ?ds)"
    by (simp add: dict_words_def split1_def strip_chars_def lstrip_chars_def rstrip_chars_def)
  from LoadLabelMap_dict_entry[where isspace = py3_isspace and gfile = "two_files ?ls ?ds"
      and labelmap_lines = ?ls and dict_lines = ?ds and i = 0,
      OF h1 h2 h3 h4 h5 h6 h7 h8 h9 h10]
  show ?thesis by simp
qed

text \<open>
  C4, as the spec words it, fails on a line with a tab between the comma and the opening
  quote: the tab is whitespace that \<^verbatim>\<open>strip(' "\n')\<close> does not remove, so it stays in
  the name and keeps the opening quote with it.
\<close>

theorem LoadLabelMap_dict_entry_counterexample:
  \<open>dict_words (''/m/068hy,'' @ [CHR 0x09] @ ''"Pet"\<newline>'') =
     [''/m/068hy'', [CHR 0x09] @ ''"Pet''] \<and>
   map strip_whitespace_quotes (split1 (CHR '','') (''/m/068hy,'' @ [CHR 0x09] @ ''"Pet"\<newline>'')) =
     [''/m/068hy'', ''Pet''] \<and>
   (case LoadLabelMap py3_isspace
           (two_files [''/m/068hy\<newline>''] [''/m/068hy,'' @ [CHR 0x09] @ ''"Pet"\<newline>''])
           ''classes-trainable.txt'' ''class-descriptions.csv'' of
      Inl e \<Rightarrow> None
    | Inr (labelmap, label_dict) \<Rightarrow> label_dict ''/m/068hy'') = Some ([CHR 0x09] @ ''"Pet'')\<close>
  by (simp add: dict_words_def split1_def strip_chars_def lstrip_chars_def rstrip_chars_def
      strip_whitespace_quotes_def py_whitespace_def LoadLabelMap_def two_files_def py_index_def)

text \<open>
  C9. A dictionary line without a comma splits into one word, so reading \<^verbatim>\<open>words[1]\<close>
  raises \<^verbatim>\<open>IndexError\<close>. Nothing catches it: \<^verbatim>\<open>LoadLabelMap\<close> raises it and returns
  no dictionary.
\<close>

theorem LoadLabelMap_no_comma_raises:
  assumes "gfile labelmap_path = Inr labelmap_lines"
    and "gfile dict_path = Inr dict_lines"
    and "line \<in> set dict_lines"
    and "CHR '','' \<notin> set line"
  shows "py_index (dict_words line) 1 = Inl IndexError \<and>
         LoadLabelMap isspace gfile labelmap_path dict_path = Inl IndexError"
proof -
  from assms(3,4) have "\<not> list_all (\<lambda>line. CHR '','' \<in> set line) dict_lines"
    by (auto simp: list_all_iff)
  then have "load_dict dict_lines Map.empty = Inl IndexError"
    by (rule load_dict_no_comma)
  then have "LoadLabelMap isspace gfile labelmap_path dict_path = Inl IndexError"
    by (simp add: LoadLabelMap_eq[OF assms(1,2)])
  moreover have "py_index (dict_words line) 1 = Inl IndexError"
    using assms(4) by (simp add: py_index_def length_dict_words)
  ultimately show ?thesis by simp
qed

theorem LoadLabelMap_no_comma_raises_witness:
  \<open>py_index (dict_words ''/m/01yrx Cat\<newline>'') 1 = Inl IndexError \<and>
   LoadLabelMap py3_isspace
     (two_files [''/m/068hy\<newline>''] [''/m/068hy,"Pet"\<newline>'', ''/m/01yrx Cat\<newline>''])
     ''classes-trainable.txt'' ''class-descriptions.csv'' = Inl IndexError\<close>
proof -
  let ?ls = \<open>[''/m/068hy\<newline>'']\<close>
  let ?ds = \<open>[''/m/068hy,"Pet"\<newline>'', ''/m/01yrx Cat\<newline>'']\<close>
  have h1: "two_files ?ls ?ds ''classes-trainable.txt'' = Inr ?ls"
    by (simp add: two_files_def)
  have h2: "two_files ?ls ?ds ''class-descriptions.csv'' = Inr ?ds"
    by (simp add: two_files_def)
  have h3: "''/m/01yrx Cat\<newline>'' \<in> set ?ds" by simp
  have h4: "CHR '','' \<notin> set ''/m/01yrx Cat\<newline>''" by simp
  show ?thesis
    by (rule LoadLabelMap_no_comma_raises[where isspace = py3_isspace
          and gfile = "two_files ?ls ?ds" and labelmap_lines = ?ls and dict_lines = ?ds,
          OF h1 h2 h3 h4])
qed

text \<open>
  C10. When two lines \<open>i < j\<close> of the dictionary file have the same stripped first field
  \<open>mid\<close> and no line after \<open>j\<close> has it, \<^verbatim>\<open>LoadLabelMap\<close> returns (the duplicate is
  not rejected) and binds \<open>mid\<close> to the name of line \<open>j\<close>, the last one.
\<close>

theorem LoadLabelMap_duplicate_last_wins:
  assumes "gfile labelmap_path = Inr labelmap_lines"
    and "gfile dict_path = Inr dict_lines"
    and "list_all (\<lambda>line. CHR '','' \<in> set line) dict_lines"
    and "i < j" and "j < length dict_lines"
    and "dict_words (dict_lines ! i) ! 0 = mid"
    and "dict_words (dict_lines ! j) ! 0 = mid"
    and "list_all (\<lambda>line. dict_words line ! 0 \<noteq> mid) (drop (Suc j) dict_lines)"
  shows "\<exists>labelmap label_dict.
           LoadLabelMap isspace gfile labelmap_path dict_path = Inr (labelmap, label_dict) \<and>
           label_dict mid = Some (dict_words (dict_lines ! j) ! 1)"
proof -
  from load_dict_commas[OF assms(3)] obtain d where d: "load_dict dict_lines Map.empty = Inr d"
    by blast
  from load_dict_last[OF d assms(5)] assms(7,8)
  have "d mid = Some (dict_words (dict_lines ! j) ! 1)" by simp
  then show ?thesis by (simp add: LoadLabelMap_eq[OF assms(1,2)] d)
qed

theorem LoadLabelMap_duplicate_last_wins_witness:
  \<open>\<exists>labelmap label_dict.
     LoadLabelMap py3_isspace
       (two_files [''/m/068hy\<newline>'']
          [''/m/068hy,"Pet"\<newline>'', ''/m/01yrx,"Cat"\<newline>'', ''"/m/068hy" , "Companion animal"\<newline>'',
           ''/m/0jbk,"Animal"\<newline>''])
       ''classes-trainable.txt'' ''class-descriptions.csv'' = Inr (labelmap, label_dict) \<and>
     label_dict ''/m/068hy'' = Some ''Companion animal''\<close>
proof -
  let ?ls = \<open>[''/m/068hy\<newline>'']\<close>
  let ?ds = \<open>[''/m/068hy,"Pet"\<newline>'', ''/m/01yrx,"Cat"\<newline>'', ''"/m/068hy" , "Companion animal"\<newline>'',
           ''/m/0jbk,"Animal"\<newline>'']\<close>
  have w: "map dict_words ?ds =
       [[''/m/068hy'', ''Pet''], [''/m/01yrx'', ''Cat''], [''/m/068hy'', ''Companion animal''],
        [''/m/0jbk'', ''Animal'']]"
    by (simp add: dict_words_def split1_def strip_chars_def lstrip_chars_def rstrip_chars_def)
  have h1: "two_files ?ls ?ds ''classes-trainable.txt'' = Inr ?ls"
    by (simp add: two_files_def)
  have h2: "two_files ?ls ?ds ''class-descriptions.csv'' = Inr ?ds"
    by (simp add: two_files_def)
  have h3: "list_all (\<lambda>line. CHR '','' \<in> set line) ?ds" by simp
  have h4: "(0::nat) < 2" and h5: "2 < length ?ds" by simp_all
  have h6: "dict_words (?ds ! 0) ! 0 = ''/m/068hy''" and h7: "dict_words (?ds ! 2) ! 0 = ''/m/068hy''"
    using w by simp_all
  have h8: "list_all (\<lambda>line. dict_words line ! 0 \<noteq> ''/m/068hy'') (drop (Suc 2) ?ds)"
    using w by simp
  have v: "dict_words (?ds ! 2) ! 1 = ''Companion animal''" using w by simp
  from LoadLabelMap_duplicate_last_wins[where isspace = py3_isspace
      and gfile = "two_files ?ls ?ds" and labelmap_lines = ?ls and dict_lines = ?ds
      and i = 0 and j = 2, OF h1 h2 h3 h4 h5 h6 h7 h8]
  show ?thesis unfolding v .
qed

section \<open>Properties of the ranking\<close>

lemma filter_scores_in_range:
  "list_all (\<lambda>i. i < length predictions_eval) idxs \<Longrightarrow>
   filter_scores predictions_eval t idxs = Inr (filter (\<lambda>i. predictions_eval ! i \<ge> t) idxs)"
  by (induction idxs) (simp_all add: py_index_def)

lemma argsort_ok_set:
  assumes "argsort_ok predictions_eval order"
  shows "set order = {0..<length predictions_eval}"
proof -
  from assms have "set order \<subseteq> {0..<length predictions_eval}"
    by (auto simp: argsort_ok_def list_all_iff)
  moreover from assms have "card (set order) = card {0..<length predictions_eval}"
    by (simp add: argsort_ok_def distinct_card)
  ultimately show ?thesis by (simp add: card_subset_eq)
qed

lemma argsort_ok_descending:
  assumes "argsort_ok predictions_eval order"
  shows "sorted_wrt (\<lambda>i j. predictions_eval ! i \<ge> predictions_eval ! j) (rev order)"
  using assms by (simp add: argsort_ok_def sorted_wrt_rev sorted_map)

lemma sorted_wrt_take_prefix: "sorted_wrt P xs \<Longrightarrow> sorted_wrt P (take n xs)"
  by (metis append_take_drop_id sorted_wrt_append)

lemma sorted_wrt_take_drop:
  "sorted_wrt P xs \<Longrightarrow> x \<in> set (take n xs) \<Longrightarrow> y \<in> set (drop n xs) \<Longrightarrow> P x y"
  by (metis append_take_drop_id sorted_wrt_append)

text \<open>Every score vector has an \<^verbatim>\<open>argsort\<close> result that meets the contract.\<close>

lemma stable_argsort_ok: "argsort_ok predictions_eval (stable_argsort predictions_eval)"
  by (simp add: argsort_ok_def stable_argsort_def list_all_iff)

text \<open>Two scores that differ leave \<^verbatim>\<open>argsort\<close> no choice.\<close>

lemma argsort_ok_two:
  assumes "argsort_ok [s0, s1] order" and "s1 < s0"
  shows "order = [1, 0]"
proof -
  from assms(1) obtain a b where o: "order = [a, b]"
    by (auto simp: argsort_ok_def length_Suc_conv)
  with assms(1) have "a < 2" "b < 2" "a \<noteq> b" "[s0, s1] ! a \<le> [s0, s1] ! b"
    by (simp_all add: argsort_ok_def)
  with assms(2) have "a = 1 \<and> b = 0"
    by (auto simp: less_2_cases_iff nth_Cons')
  with o show ?thesis by simp
qed

text \<open>
  C1. With \<^verbatim>\<open>top_k = k > 0\<close> and no threshold, the ranked indices are the first \<open>k\<close>
  of the reversed \<^verbatim>\<open>argsort\<close> result: exactly \<open>min k N\<close> of them for a score vector of
  length \<open>N\<close>, in descending order of score, each index once and inside the vector, and
  no index left out has a higher score than one that was kept. Equal scores stand in the
  order \<^verbatim>\<open>argsort\<close> gives them, reversed.
\<close>

theorem top_k_positive_no_threshold:
  assumes "argsort_ok predictions_eval order" and "0 < k"
  shows "\<exists>top_k.
           top_k_indices order predictions_eval k None = Inr top_k \<and>
           top_k = take (nat k) (rev order) \<and>
           length top_k = min (nat k) (length predictions_eval) \<and>
           sorted_wrt (\<lambda>i j. predictions_eval ! i \<ge> predictions_eval ! j) top_k \<and>
           distinct top_k \<and>
           list_all (\<lambda>i. i < length predictions_eval) top_k \<and>
           (\<forall>i < length predictions_eval. i \<notin> set top_k \<longrightarrow>
              list_all (\<lambda>j. predictions_eval ! i \<le> predictions_eval ! j) top_k)"
proof -
  let ?r = "take (nat k) (rev order)"
  have 1: "top_k_indices order predictions_eval k None = Inr ?r"
    using assms(2) by (simp add: top_k_indices_def)
  have 2: "length ?r = min (nat k) (length predictions_eval)"
    using assms(1) by (simp add: argsort_ok_def min.commute)
  have d: "sorted_wrt (\<lambda>i j. predictions_eval ! i \<ge> predictions_eval ! j) (rev order)"
    by (rule argsort_ok_descending[OF assms(1)])
  then have 3: "sorted_wrt (\<lambda>i j. predictions_eval ! i \<ge> predictions_eval ! j) ?r"
    by (rule sorted_wrt_take_prefix)
  have 4: "distinct ?r" using assms(1) by (simp add: argsort_ok_def)
  have 5: "list_all (\<lambda>i. i < length predictions_eval) ?r"
    using assms(1) by (auto simp: argsort_ok_def list_all_iff dest: in_set_takeD)
  have 6: "list_all (\<lambda>j. predictions_eval ! i \<le> predictions_eval ! j) ?r"
    if "i < length predictions_eval" and "i \<notin> set ?r" for i
  proof -
    from that(1) argsort_ok_set[OF assms(1)] have "i \<in> set (rev order)" by simp
    then have "i \<in> set (take (nat k) (rev order) @ drop (nat k) (rev order))" by simp
    with that(2) have "i \<in> set (drop (nat k) (rev order))" by (simp only: set_append Un_iff) blast
    with d show ?thesis
      by (auto simp: list_all_iff dest: sorted_wrt_take_drop)
  qed
  from 1 2 3 4 5 6 show ?thesis by blast
qed

theorem top_k_positive_no_threshold_witness:
  "argsort_ok [24/25, 1/5, 19/20] [1, 2, 0] \<and>
   top_k_indices [1, 2, 0] [24/25, 1/5, 19/20] 2 None = Inr [0, 2]"
proof -
  have h: "argsort_ok [24/25, 1/5, 19/20] [1, 2, 0]" by (simp add: argsort_ok_def)
  have k: "(0::int) < 2" by simp
  from top_k_positive_no_threshold[OF h k] h show ?thesis by simp
qed

text \<open>
  C5. With \<^verbatim>\<open>top_k\<close> zero or negative and no threshold nothing is cut: the ranked
  indices are the whole reversed \<^verbatim>\<open>argsort\<close> result, all \<open>N\<close> indices, each once, in
  descending order of score.
\<close>

theorem top_k_unlimited:
  assumes "argsort_ok predictions_eval order" and "k \<le> 0"
  shows "top_k_indices order predictions_eval k None = Inr (rev order) \<and>
         length (rev order) = length predictions_eval \<and>
         set (rev order) = {0..<length predictions_eval} \<and>
         distinct (rev order) \<and>
         sorted_wrt (\<lambda>i j. predictions_eval ! i \<ge> predictions_eval ! j) (rev order)"
  using assms argsort_ok_set[OF assms(1)] argsort_ok_descending[OF assms(1)]
  by (simp add: top_k_indices_def argsort_ok_def)

theorem top_k_unlimited_witness:
  "argsort_ok [1/2, 9/10, 1/2] [2, 0, 1] \<and>
   top_k_indices [2, 0, 1] [1/2, 9/10, 1/2] 0 None = Inr [1, 0, 2]"
proof -
  have h: "argsort_ok [1/2, 9/10, 1/2] [2, 0, 1]" by (simp add: argsort_ok_def)
  have k: "(0::int) \<le> 0" by simp
  from top_k_unlimited[OF h k] h show ?thesis by simp
qed

text \<open>
  C2. With \<^verbatim>\<open>top_k = k > 0\<close> and a threshold \<open>t\<close>, the ranked indices are the first \<open>k\<close>
  of the reversed \<^verbatim>\<open>argsort\<close> result, filtered afterwards: every one has a score of at
  least \<open>t\<close>, there are no more of them than the truncation kept, hence at most
  \<open>min k N\<close>, and they are still in descending order of score.
\<close>

theorem top_k_threshold:
  assumes "argsort_ok predictions_eval order" and "0 < k"
  shows "\<exists>top_k.
           top_k_indices order predictions_eval k (Some t) = Inr top_k \<and>
           top_k = filter (\<lambda>i. predictions_eval ! i \<ge> t) (take (nat k) (rev order)) \<and>
           list_all (\<lambda>i. predictions_eval ! i \<ge> t) top_k \<and>
           length top_k \<le> length (take (nat k) (rev order)) \<and>
           length top_k \<le> min (nat k) (length predictions_eval) \<and>
           sorted_wrt (\<lambda>i j. predictions_eval ! i \<ge> predictions_eval ! j) top_k"
proof -
  let ?c = "take (nat k) (rev order)"
  let ?r = "filter (\<lambda>i. predictions_eval ! i \<ge> t) ?c"
  have "list_all (\<lambda>i. i < length predictions_eval) ?c"
    using assms(1) by (auto simp: argsort_ok_def list_all_iff dest: in_set_takeD)
  then have 1: "top_k_indices order predictions_eval k (Some t) = Inr ?r"
    using assms(2) by (simp add: top_k_indices_def filter_scores_in_range)
  have 2: "list_all (\<lambda>i. predictions_eval ! i \<ge> t) ?r" by (simp add: list_all_iff)
  have 3: "length ?r \<le> length ?c" by (rule length_filter_le)
  have "length ?c = min (nat k) (length predictions_eval)"
    using assms(1) by (simp add: argsort_ok_def min.commute)
  with 3 have 4: "length ?r \<le> min (nat k) (length predictions_eval)" by (simp only:)
  have "sorted_wrt (\<lambda>i j. predictions_eval ! i \<ge> predictions_eval ! j) ?c"
    by (rule sorted_wrt_take_prefix[OF argsort_ok_descending[OF assms(1)]])
  then have 5: "sorted_wrt (\<lambda>i j. predictions_eval ! i \<ge> predictions_eval ! j) ?r"
    by (rule sorted_wrt_filter)
  from 1 2 3 4 5 show ?thesis by blast
qed

theorem top_k_threshold_witness:
  "argsort_ok [24/25, 1/5, 19/20] [1, 2, 0] \<and>
   top_k_indices [1, 2, 0] [24/25, 1/5, 19/20] 2 (Some (191/200)) = Inr [0]"
proof -
  have h: "argsort_ok [24/25, 1/5, 19/20] [1, 2, 0]" by (simp add: argsort_ok_def)
  have k: "(0::int) < 2" by simp
  from top_k_threshold[OF h k, of "191/200"] h show ?thesis by simp
qed

section \<open>Properties of the printing\<close>

subsection \<open>Numbers\<close>

lemma digit_char_value: "d < 10 \<Longrightarrow> of_char (digit_char d) = 48 + d"
proof -
  assume "d < 10"
  then consider "d = 0" | "d = 1" | "d = 2" | "d = 3" | "d = 4" | "d = 5" | "d = 6" | "d = 7"
    | "d = 8" | "d = 9"
    by atomize_elim arith
  then show ?thesis by cases (simp_all add: digit_char_def)
qed

lemma digits_value_snoc:
  "digits_value (s @ [c]) = 10 * digits_value s + (of_char c - 48)"
  by (simp add: digits_value_def)

lemma digits_value_decimal: "digits_value (decimal n) = n"
proof (induction n rule: decimal.induct)
  case (1 n)
  show ?case
  proof (cases "n < 10")
    case True
    then show ?thesis
      by (subst decimal.simps) (simp add: digits_value_def digit_char_value)
  next
    case False
    with 1 show ?thesis
      by (subst decimal.simps) (simp add: digits_value_snoc digit_char_value)
  qed
qed

lemma digits_value_zeros: "digits_value (replicate k (CHR ''0'') @ s) = digits_value s"
proof -
  have "foldl (\<lambda>a c. 10 * a + (of_char c - 48)) (0::nat) (replicate k (CHR ''0'')) = 0"
    by (induction k) simp_all
  then show ?thesis by (simp add: digits_value_def)
qed

lemma length_decimal_pos: "0 < length (decimal n)"
  by (subst decimal.simps) simp

lemma length_decimal_small: "n < 10000 \<Longrightarrow> length (decimal n) \<le> 4"
proof -
  assume n: "n < 10000"
  have 1: "length (decimal m) = 1" if "m < 10" for m
    using that by (subst decimal.simps) simp
  have 2: "length (decimal m) \<le> 2" if "m < 100" for m
    using that 1[of "m div 10"] by (subst decimal.simps) (simp add: 1)
  have 3: "length (decimal m) \<le> 3" if "m < 1000" for m
    using that 2[of "m div 10"] by (subst decimal.simps) (simp add: 1)
  show ?thesis
    using n 3[of "n div 10"] by (subst decimal.simps) (simp add: 1)
qed

lemma format_04d_props:
  "length (format_04d idx) \<ge> 4 \<and> digits_value (format_04d idx) = idx \<and>
   (idx < 10000 \<longrightarrow> length (format_04d idx) = 4)"
  using length_decimal_small[of idx]
  by (auto simp: format_04d_def digits_value_zeros digits_value_decimal)


lemma round_half_even_between:
  assumes "of_int k - 1 / 2 < q" and "q < of_int k + 1 / 2"
  shows "round_half_even q = k"
proof -
  have "\<lfloor>q\<rfloor> = k - 1 \<or> \<lfloor>q\<rfloor> = k"
    using assms by (simp add: floor_eq_iff) linarith
  then show ?thesis
  proof
    assume f: "\<lfloor>q\<rfloor> = k - 1"
    with assms(1) have "q - of_int \<lfloor>q\<rfloor> > 1 / 2" by simp
    with f show ?thesis by (simp add: round_half_even_def Let_def)
  next
    assume f: "\<lfloor>q\<rfloor> = k"
    with assms(2) have "q - of_int \<lfloor>q\<rfloor> < 1 / 2" by simp
    with f show ?thesis by (simp add: round_half_even_def Let_def)
  qed
qed

lemma format_2f_near_096:
  assumes "191 / 200 < s" and "s < 193 / 200"
  shows "format_2f s = ''0.96''"
proof -
  from assms have "round_half_even (\<bar>s\<bar> * 100) = 96"
    by (intro round_half_even_between) simp_all
  moreover have "decimal 0 = ''0''" by code_simp
  moreover have "digit_char 9 = CHR ''9''" "digit_char 6 = CHR ''6''" by code_simp+
  ultimately show ?thesis using assms(1) by (simp add: format_2f_def)
qed












subsection \<open>The loop over the ranked indices\<close>

lemma print_results_ok:
  "list_all (lookups_ok labelmap label_dict predictions_eval) idxs \<Longrightarrow>
   print_results labelmap label_dict predictions_eval idxs out =
     (out @ concat (map (\<lambda>idx. result_line labelmap label_dict predictions_eval idx @ ''\<newline>'') idxs),
      None)"
proof (induction idxs arbitrary: out)
  case Nil
  then show ?case by simp
next
  case (Cons idx rest)
  from Cons.prems have ok: "lookups_ok labelmap label_dict predictions_eval idx"
    and rest: "list_all (lookups_ok labelmap label_dict predictions_eval) rest"
    by simp_all
  from ok obtain name where name: "label_dict (labelmap ! idx) = Some name"
    by (auto simp: lookups_ok_def)
  from ok name show ?case
    by (simp add: Cons.IH[OF rest] lookups_ok_def py_index_def py_getitem_def print_def
        result_line_def)
qed

lemma print_results_fail:
  assumes "list_all (lookups_ok labelmap label_dict predictions_eval) good"
    and "length labelmap \<le> idx \<or> label_dict (labelmap ! idx) = None"
  shows "print_results labelmap label_dict predictions_eval (good @ idx # rest) out =
     (out @ concat (map (\<lambda>idx. result_line labelmap label_dict predictions_eval idx @ ''\<newline>'') good),
      Some (if length labelmap \<le> idx then IndexError else KeyError))"
  using assms(1)
proof (induction good arbitrary: out)
  case Nil
  from assms(2) show ?case
    by (auto simp: py_index_def py_getitem_def)
next
  case (Cons g good)
  from Cons.prems have ok: "lookups_ok labelmap label_dict predictions_eval g"
    and rest: "list_all (lookups_ok labelmap label_dict predictions_eval) good"
    by simp_all
  from ok obtain name where name: "label_dict (labelmap ! g) = Some name"
    by (auto simp: lookups_ok_def)
  from ok name show ?case
    by (simp add: Cons.IH[OF rest] lookups_ok_def py_index_def py_getitem_def print_def
        result_line_def)
qed

lemma show_predictions_ok:
  assumes "top_k_indices order predictions_eval k thr = Inr top_k"
    and "list_all (lookups_ok labelmap label_dict predictions_eval) top_k"
  shows \<open>show_predictions labelmap label_dict image_filename predictions_eval order k thr out =
     (out @ ''Image: "'' @ image_filename @ ''"\<newline>\<newline>'' @
      concat (map (\<lambda>idx. result_line labelmap label_dict predictions_eval idx @ ''\<newline>'') top_k),
      None)\<close>
  by (simp add: show_predictions_def assms(1) print_results_ok[OF assms(2)] print_def)

lemma show_predictions_fail:
  assumes "top_k_indices order predictions_eval k thr = Inr (good @ idx # rest)"
    and "list_all (lookups_ok labelmap label_dict predictions_eval) good"
    and "length labelmap \<le> idx \<or> label_dict (labelmap ! idx) = None"
  shows \<open>show_predictions labelmap label_dict image_filename predictions_eval order k thr out =
     (out @ ''Image: "'' @ image_filename @ ''"\<newline>\<newline>'' @
      concat (map (\<lambda>idx. result_line labelmap label_dict predictions_eval idx @ ''\<newline>'') good),
      Some (if length labelmap \<le> idx then IndexError else KeyError))\<close>
  by (simp add: show_predictions_def assms(1) print_results_fail[OF assms(2,3)] print_def)


text \<open>The whole script on the sample run.\<close>

lemma main_sample:
  \<open>main sample_env sample_flags =
     (''Image: "cat.jpg"\<newline>\<newline>0000: /m/068hy - Pet (score = 0.96)\<newline>0001: /m/01yrx - Cat (score = 0.95)\<newline>'',
      None)\<close>
  by code_simp

subsection \<open>The printed lines\<close>



text \<open>
  C7. With the label map \<^verbatim>\<open>["/m/068hy", "/m/01yrx"]\<close>, a dictionary that names them Pet
  and Cat, the scores \<^verbatim>\<open>[0.96, 0.95]\<close> (as exact decimals or as the floats next to
  them: a first score between 0.955 and 0.965 and a lower second one), \<^verbatim>\<open>top_k = 1\<close>
  and no threshold, whatever \<^verbatim>\<open>argsort\<close> result meets the contract, the output after
  the header is the one line \<^verbatim>\<open>0000: /m/068hy - Pet (score = 0.96)\<close>.
\<close>

theorem ranked_output_scenario:
  assumes "argsort_ok [s0, s1] order"
    and "191 / 200 < s0" and "s0 < 193 / 200" and "s1 < s0"
    and "label_dict ''/m/068hy'' = Some ''Pet''"
    and "label_dict ''/m/01yrx'' = Some ''Cat''"
  shows \<open>show_predictions [''/m/068hy'', ''/m/01yrx''] label_dict image_filename [s0, s1]
           order 1 None out =
         (out @ ''Image: "'' @ image_filename @ ''"\<newline>\<newline>'' @
          ''0000: /m/068hy - Pet (score = 0.96)\<newline>'', None)\<close>
proof -
  have o: "order = [1, 0]" by (rule argsort_ok_two[OF assms(1,4)])
  have t: "top_k_indices order [s0, s1] 1 None = Inr [0]"
    by (simp add: top_k_indices_def o)
  have l: "list_all (lookups_ok [''/m/068hy'', ''/m/01yrx''] label_dict [s0, s1]) [0]"
    by (simp add: lookups_ok_def assms(5))
  have "format_04d 0 = ''0000''" by code_simp
  then have f: "format_result 0 ''/m/068hy'' ''Pet'' s0 = ''0000: /m/068hy - Pet (score = 0.96)''"
    by (simp add: format_result_def format_2f_near_096[OF assms(2,3)])
  show ?thesis
    by (simp add: show_predictions_ok[OF t l] result_line_def assms(5) f)
qed

theorem ranked_output_scenario_witness:
  \<open>argsort_ok [24/25, 19/20] (stable_argsort [24/25, 19/20]) \<and>
   show_predictions [''/m/068hy'', ''/m/01yrx''] sample_label_dict ''cat.jpg'' [24/25, 19/20]
     (stable_argsort [24/25, 19/20]) 1 None '''' =
   (''Image: "cat.jpg"\<newline>\<newline>0000: /m/068hy - Pet (score = 0.96)\<newline>'', None)\<close>
proof -
  have h1: "argsort_ok [24/25, 19/20] (stable_argsort [24/25, 19/20])"
    by (rule stable_argsort_ok)
  have h2: "sample_label_dict ''/m/068hy'' = Some ''Pet''"
    and h3: "sample_label_dict ''/m/01yrx'' = Some ''Cat''"
    by (simp_all add: sample_label_dict_def)
  have h4: "(191::rat) / 200 < 24/25" "(24::rat)/25 < 193 / 200" "(19::rat)/20 < 24/25"
    by simp_all
  from ranked_output_scenario[OF h1 h4 h2 h3, of "''cat.jpg''" "''''"] h1 show ?thesis by simp
qed

text \<open>
  C8. When the first ranked index whose lookup fails is outside the label map, or has a
  mid that is no key of the dictionary, the loop over the images stops there with
  \<^verbatim>\<open>IndexError\<close> in the first case and \<^verbatim>\<open>KeyError\<close> in the second: nothing catches it,
  the lines of the indices before it stay printed, and the images after this one are
  not processed.
\<close>

theorem lookup_failure_fatal:
  assumes "sess_run E image_filename = Inr predictions_eval"
    and "top_k_indices (argsort E predictions_eval) predictions_eval (flag_top_k F)
           (flag_score_threshold F) = Inr (good @ idx # rest)"
    and "list_all (lookups_ok labelmap label_dict predictions_eval) good"
    and "length labelmap \<le> idx \<or> label_dict (labelmap ! idx) = None"
  shows \<open>image_loop E F labelmap label_dict (image_filename # later) out =
           (out @ ''Image: "'' @ image_filename @ ''"\<newline>\<newline>'' @
            concat (map (\<lambda>idx. result_line labelmap label_dict predictions_eval idx @ ''\<newline>'') good),
            Some (if length labelmap \<le> idx then IndexError else KeyError))\<close>
  by (simp add: assms(1) show_predictions_fail[OF assms(2,3,4)])

theorem lookup_failure_fatal_witness:
  \<open>image_loop sample_env sample_flags [''/m/068hy''] sample_label_dict [''cat.jpg'', ''dog.jpg''] '''' =
     (''Image: "cat.jpg"\<newline>\<newline>0000: /m/068hy - Pet (score = 0.96)\<newline>'', Some IndexError) \<and>
   image_loop sample_env sample_flags [''/m/068hy'', ''/m/0jbk''] sample_label_dict [''cat.jpg'', ''dog.jpg''] '''' =
     (''Image: "cat.jpg"\<newline>\<newline>0000: /m/068hy - Pet (score = 0.96)\<newline>'', Some KeyError)\<close>
proof -
  have h1: "sess_run sample_env ''cat.jpg'' = Inr [24/25, 19/20]"
    by (simp add: sample_env_def)
  have h2: "top_k_indices (argsort sample_env [24/25, 19/20]) [24/25, 19/20]
              (flag_top_k sample_flags) (flag_score_threshold sample_flags) = Inr ([0] @ 1 # [])"
    by (simp add: sample_env_def sample_flags_def stable_argsort_def top_k_indices_def
        py_index_def)
  have a3: "list_all (lookups_ok [''/m/068hy''] sample_label_dict [24/25, 19/20]) [0]"
    by (simp add: lookups_ok_def sample_label_dict_def)
  have a4: "length [''/m/068hy''] \<le> 1 \<or> sample_label_dict ([''/m/068hy''] ! 1) = None"
    by simp
  have b3: "list_all (lookups_ok [''/m/068hy'', ''/m/0jbk''] sample_label_dict [24/25, 19/20]) [0]"
    by (simp add: lookups_ok_def sample_label_dict_def)
  have b4: "length [''/m/068hy'', ''/m/0jbk''] \<le> 1 \<or>
            sample_label_dict ([''/m/068hy'', ''/m/0jbk''] ! 1) = None"
    by (simp add: sample_label_dict_def)
  have f: "format_result 0 ''/m/068hy'' ''Pet'' (24/25) = ''0000: /m/068hy - Pet (score = 0.96)''"
    by code_simp
  have d: "sample_label_dict ''/m/068hy'' = Some ''Pet''"
    by (simp add: sample_label_dict_def)
  note a = lookup_failure_fatal[OF h1 h2 a3 a4, of "[''dog.jpg'']" "''''"]
  note b = lookup_failure_fatal[OF h1 h2 b3 b4, of "[''dog.jpg'']" "''''"]
  show ?thesis unfolding a b by (simp add: result_line_def d f)
qed

end
